theory Spec2Isabelle
  imports Main "HOL-Library.AList"
begin

text \<open>
  A model of the tool invocation pipeline of Local AgentRPC: the tool registry, the access
  policy store, the result cache, the metrics collector, the executor and the facade with
  its lifecycle events. Each operation is a function from the state before to the outcome
  and the state after; a thrown error is a value.
\<close>

section \<open>JavaScript values and the built-in operations the pipeline relies on\<close>

text \<open>
  Tool inputs and outputs are JavaScript values of type \<^verbatim>\<open>any\<close>. The model keeps the
  JSON-shaped ones, \<^verbatim>\<open>undefined\<close>, and \<open>JFunction\<close> for a function or a symbol. \<open>JNum i\<close> is
  the number \<open>i\<close> for an integer of magnitude at most \<open>2\<^sup>5\<^sup>3 - 1\<close> (milliseconds, counters,
  sizes). \<open>JObj\<close> holds an object's own enumerable string-keyed properties in the order in
  which they were created; an object has each key once.
\<close>

datatype jsvalue =
    JUndefined
  | JFunction
  | JNull
  | JBool bool
  | JNum int
  | JStr string
  | JArr "jsvalue list"
  | JObj "(string \<times> jsvalue) list"

text \<open>A value of type \<^verbatim>\<open>number\<close> produced by arithmetic on a possibly missing operand:
  \<^verbatim>\<open>undefined * 1000\<close> is \<^verbatim>\<open>NaN\<close>, which is falsy.\<close>

datatype jsnumber = Num int | NaN

text \<open>Truthiness of an optional integral number: \<^verbatim>\<open>undefined\<close> and \<^verbatim>\<open>0\<close> are falsy.\<close>

fun truthy_num :: "int option \<Rightarrow> bool" where
  "truthy_num None = False"
| "truthy_num (Some n) = (n \<noteq> 0)"

text \<open>Truthiness of \<^verbatim>\<open>string | undefined\<close>: \<^verbatim>\<open>undefined\<close> and the empty string are falsy.\<close>

fun truthy_str :: "string option \<Rightarrow> bool" where
  "truthy_str None = False"
| "truthy_str (Some s) = (s \<noteq> [])"

subsection \<open>\<^verbatim>\<open>JSON.stringify\<close>\<close>

text \<open>The decimal text of an integer, as \<^verbatim>\<open>JSON.stringify\<close> writes the integral numbers of
  magnitude at most \<open>2\<^sup>5\<^sup>3 - 1\<close> (from \<open>10\<^sup>2\<^sup>1\<close> on it writes an exponent instead).\<close>

definition digit_char :: "nat \<Rightarrow> char" where
  "digit_char d = ''0123456789'' ! d"

definition hex_char :: "nat \<Rightarrow> char" where
  "hex_char d = ''0123456789abcdef'' ! d"

fun show_nat :: "nat \<Rightarrow> string" where
  "show_nat n = (if n < 10 then [digit_char n] else show_nat (n div 10) @ [digit_char (n mod 10)])"

definition show_int :: "int \<Rightarrow> string" where
  "show_int i = (if i < 0 then ''-'' @ show_nat (nat (- i)) else show_nat (nat i))"

text \<open>\<^verbatim>\<open>QuoteJSONString\<close>: the two-character escapes, \<^verbatim>\<open>\u00XX\<close> for the other control
  characters, every other character as it is, all between double quotes.\<close>

definition quote_char :: "char \<Rightarrow> string" where
  "quote_char c =
     (if c = CHR 0x22 then [CHR 0x5C, CHR 0x22]
      else if c = CHR 0x5C then [CHR 0x5C, CHR 0x5C]
      else if c = CHR 0x08 then [CHR 0x5C, CHR ''b'']
      else if c = CHR 0x0C then [CHR 0x5C, CHR ''f'']
      else if c = CHR 0x0A then [CHR 0x5C, CHR ''n'']
      else if c = CHR 0x0D then [CHR 0x5C, CHR ''r'']
      else if c = CHR 0x09 then [CHR 0x5C, CHR ''t'']
      else if (of_char c :: nat) < 32
        then [CHR 0x5C, CHR ''u'', CHR ''0'', CHR ''0'',
              hex_char (of_char c div 16), hex_char (of_char c mod 16)]
      else [c])"

definition QuoteJSONString :: "string \<Rightarrow> string" where
  "QuoteJSONString s = [CHR 0x22] @ concat (map quote_char s) @ [CHR 0x22]"

fun join :: "string \<Rightarrow> string list \<Rightarrow> string" where
  "join sep [] = []"
| "join sep [s] = s"
| "join sep (s # t # ss) = s @ sep @ join sep (t # ss)"

text \<open>
  An array index is a key that is the decimal text, without leading zeros, of an integer
  from \<open>0\<close> to \<open>2\<^sup>3\<^sup>2 - 2\<close>.
\<close>

definition digit_value :: "char \<Rightarrow> int option" where
  "digit_value c =
     (if 48 \<le> (of_char c :: int) \<and> (of_char c :: int) \<le> 57 then Some (of_char c - 48) else None)"

fun parse_decimal :: "string \<Rightarrow> int \<Rightarrow> int option" where
  "parse_decimal [] acc = Some acc"
| "parse_decimal (c # cs) acc =
     (case digit_value c of None \<Rightarrow> None | Some d \<Rightarrow> parse_decimal cs (10 * acc + d))"

definition array_index :: "string \<Rightarrow> int option" where
  "array_index k =
     (if k = [] then None
      else (case parse_decimal k 0 of
              None \<Rightarrow> None
            | Some i \<Rightarrow> if show_int i = k \<and> i < 4294967295 then Some i else None))"

text \<open>
  The order in which the own properties of an object are visited
  (\<^verbatim>\<open>OrdinaryOwnPropertyKeys\<close>): the properties whose key is an array index in ascending
  numeric order, then the others in the order of their creation.
\<close>

definition own_property_order :: "(string \<times> 'a) list \<Rightarrow> (string \<times> 'a) list" where
  "own_property_order ps =
     map snd (sort_key fst
        (List.map_filter (\<lambda>p. map_option (\<lambda>i. (i, p)) (array_index (fst p))) ps))
     @ filter (\<lambda>p. array_index (fst p) = None) ps"

text \<open>
  \<^verbatim>\<open>JSON.stringify(v)\<close> is \<^verbatim>\<open>undefined\<close> (here \<open>None\<close>) for \<^verbatim>\<open>undefined\<close>, a function
  or a symbol; inside an array such a value is written \<^verbatim>\<open>null\<close>, inside an object the
  property is left out. \<open>stringify_properties\<close> gives the key and the text of every property
  that is written; they are written in the order in which own properties are visited.
\<close>

fun JSON_stringify :: "jsvalue \<Rightarrow> string option"
and stringify_elements :: "jsvalue list \<Rightarrow> string list"
and stringify_properties :: "(string \<times> jsvalue) list \<Rightarrow> (string \<times> string) list"
where
  "JSON_stringify JUndefined = None"
| "JSON_stringify JFunction = None"
| "JSON_stringify JNull = Some ''null''"
| "JSON_stringify (JBool b) = Some (if b then ''true'' else ''false'')"
| "JSON_stringify (JNum i) = Some (show_int i)"
| "JSON_stringify (JStr s) = Some (QuoteJSONString s)"
| "JSON_stringify (JArr xs) = Some (''['' @ join '','' (stringify_elements xs) @ '']'')"
| "JSON_stringify (JObj kvs) =
     Some (''{'' @ join '','' (map (\<lambda>(k, s). QuoteJSONString k @ '':'' @ s)
                               (own_property_order (stringify_properties kvs))) @ ''}'')"
| "stringify_elements [] = []"
| "stringify_elements (x # xs) =
     (case JSON_stringify x of None \<Rightarrow> ''null'' | Some s \<Rightarrow> s) # stringify_elements xs"
| "stringify_properties [] = []"
| "stringify_properties ((k, v) # kvs) =
     (case JSON_stringify v of
        None \<Rightarrow> stringify_properties kvs
      | Some s \<Rightarrow> (k, s) # stringify_properties kvs)"

text \<open>A template literal \<^verbatim>\<open>`${x}`\<close> over \<^verbatim>\<open>string | undefined\<close>.\<close>

fun template_str :: "string option \<Rightarrow> string" where
  "template_str None = ''undefined''"
| "template_str (Some s) = s"

subsection \<open>\<^verbatim>\<open>Map<string, V>\<close>\<close>

text \<open>
  A JavaScript \<^verbatim>\<open>Map\<close> iterates in insertion order, \<^verbatim>\<open>set\<close> on a present key keeps
  the key's position, and keys are unique: an association list with
  \<^const>\<open>AList.update\<close> and \<^const>\<open>AList.delete\<close>.
\<close>

type_synonym 'v jsmap = "(string \<times> 'v) list"

definition Map_has :: "'v jsmap \<Rightarrow> string \<Rightarrow> bool" where
  "Map_has m k = (map_of m k \<noteq> None)"

definition Map_get :: "'v jsmap \<Rightarrow> string \<Rightarrow> 'v option" where
  "Map_get m k = map_of m k"

definition Map_set :: "string \<Rightarrow> 'v \<Rightarrow> 'v jsmap \<Rightarrow> 'v jsmap" where
  "Map_set k v m = AList.update k v m"

definition Map_delete :: "string \<Rightarrow> 'v jsmap \<Rightarrow> 'v jsmap" where
  "Map_delete k m = AList.delete k m"

definition Map_size :: "'v jsmap \<Rightarrow> int" where
  "Map_size m = int (length m)"

section \<open>Tool registry (registry/LocalToolRegistry)\<close>

record ToolConfig =
  retryCountOnStall :: "int option"
  timeoutSeconds :: "int option"
  enableCache :: "bool option"
  cacheTimeSeconds :: "int option"
  allowedRoles :: "string list option"

text \<open>
  What a validator, a handler or the executor's own \<^verbatim>\<open>try\<close> block can throw: a
  \<^verbatim>\<open>ZodError\<close> (with its message), a \<^verbatim>\<open>TypeError\<close> of the runtime reading a property of
  \<^verbatim>\<open>undefined\<close> (with the property's name), any other error (with its message), and the
  error with which \<^verbatim>\<open>executeWithTimeout\<close> rejects at the deadline (tool name and timeout).
\<close>

datatype thrown =
    ZodError string
  | TypeError string
  | OtherError string
  | TimedOut string int

text \<open>
  \<^verbatim>\<open>schema.parse(input)\<close> either returns the validated value or throws; the integer is
  the time in milliseconds the call takes. A handler's promise resolves with a value or
  rejects with an error after some time, or never settles.
\<close>

datatype handler_run = Settles int "thrown + jsvalue" | NeverSettles

record Tool =
  name :: string
  description :: string
  schema :: "jsvalue \<Rightarrow> int \<times> (thrown + jsvalue)"
  handler :: "jsvalue \<Rightarrow> handler_run"
  config :: "ToolConfig option"

record LocalToolRegistry =
  tools :: "Tool jsmap"

datatype RegistryError = AlreadyRegistered string

definition register :: "Tool \<Rightarrow> LocalToolRegistry \<Rightarrow> (RegistryError + unit) \<times> LocalToolRegistry" where
  "register tool reg =
     (if Map_has (tools reg) (name tool)
      then (Inl (AlreadyRegistered (name tool)), reg)
      else (Inr (), reg\<lparr>tools := Map_set (name tool) tool (tools reg)\<rparr>))"

definition getTool :: "LocalToolRegistry \<Rightarrow> string \<Rightarrow> Tool option" where
  "getTool reg n = Map_get (tools reg) n"

definition getAllTools :: "LocalToolRegistry \<Rightarrow> Tool list" where
  "getAllTools reg = map snd (tools reg)"

definition hasTool :: "LocalToolRegistry \<Rightarrow> string \<Rightarrow> bool" where
  "hasTool reg n = Map_has (tools reg) n"

definition removeTool :: "string \<Rightarrow> LocalToolRegistry \<Rightarrow> bool \<times> LocalToolRegistry" where
  "removeTool n reg = (Map_has (tools reg) n, reg\<lparr>tools := Map_delete n (tools reg)\<rparr>)"

section \<open>Result cache (utils/cache)\<close>

text \<open>
  The field \<^verbatim>\<open>value\<close> of a cache entry is \<open>entry_value\<close> here. Time is in milliseconds; every
  operation that reads \<^verbatim>\<open>Date.now()\<close> takes the reading as its argument \<open>now\<close>.
\<close>

record 'v CacheEntry =
  entry_value :: 'v
  timestamp :: int
  ttlMs :: int

record 'v ToolCache =
  cache :: "'v CacheEntry jsmap"
  maxEntries :: int

text \<open>\<^verbatim>\<open>findOldestEntry\<close>: one pass in insertion order that keeps the first entry whose
  timestamp is strictly less than the least seen so far, starting from \<^verbatim>\<open>Infinity\<close> (here
  \<open>None\<close>) and no key.\<close>

fun findOldestEntry_loop ::
  "(string \<times> 'v CacheEntry) list \<Rightarrow> string option \<Rightarrow> int option \<Rightarrow> string option" where
  "findOldestEntry_loop [] oldestKey oldestTimestamp = oldestKey"
| "findOldestEntry_loop ((key, entry) # rest) oldestKey oldestTimestamp =
     (if (case oldestTimestamp of None \<Rightarrow> True | Some t \<Rightarrow> timestamp entry < t)
      then findOldestEntry_loop rest (Some key) (Some (timestamp entry))
      else findOldestEntry_loop rest oldestKey oldestTimestamp)"

definition findOldestEntry :: "'v ToolCache \<Rightarrow> string option" where
  "findOldestEntry c = findOldestEntry_loop (cache c) None None"

text \<open>\<^verbatim>\<open>set\<close>: when \<^verbatim>\<open>cache.size >= maxEntries\<close>, delete the key found by
  \<^verbatim>\<open>findOldestEntry\<close> if that key is truthy; then store the new entry, stamped \<open>now\<close>.\<close>

definition ToolCache_set :: "string \<Rightarrow> 'v \<Rightarrow> int \<Rightarrow> int \<Rightarrow> 'v ToolCache \<Rightarrow> 'v ToolCache" where
  "ToolCache_set key v ttl now c =
     (let c1 = (if Map_size (cache c) \<ge> maxEntries c
                then (let oldestKey = findOldestEntry c
                      in if truthy_str oldestKey
                         then (case oldestKey of
                                 Some k \<Rightarrow> c\<lparr>cache := Map_delete k (cache c)\<rparr>
                               | None \<Rightarrow> c)
                         else c)
                else c)
      in c1\<lparr>cache := Map_set key \<lparr>entry_value = v, timestamp = now, ttlMs = ttl\<rparr> (cache c1)\<rparr>)"

text \<open>\<^verbatim>\<open>get\<close> and \<^verbatim>\<open>has\<close> at the time \<open>now\<close> read by \<^verbatim>\<open>Date.now()\<close>: an entry with
  \<^verbatim>\<open>ttlMs > 0 && now - timestamp > ttlMs\<close> is deleted and reported absent.\<close>

definition ToolCache_get :: "string \<Rightarrow> int \<Rightarrow> 'v ToolCache \<Rightarrow> 'v option \<times> 'v ToolCache" where
  "ToolCache_get key now c =
     (case Map_get (cache c) key of
        None \<Rightarrow> (None, c)
      | Some entry \<Rightarrow>
          if ttlMs entry > 0 \<and> now - timestamp entry > ttlMs entry
          then (None, c\<lparr>cache := Map_delete key (cache c)\<rparr>)
          else (Some (entry_value entry), c))"

definition ToolCache_has :: "string \<Rightarrow> int \<Rightarrow> 'v ToolCache \<Rightarrow> bool \<times> 'v ToolCache" where
  "ToolCache_has key now c =
     (case Map_get (cache c) key of
        None \<Rightarrow> (False, c)
      | Some entry \<Rightarrow>
          if ttlMs entry > 0 \<and> now - timestamp entry > ttlMs entry
          then (False, c\<lparr>cache := Map_delete key (cache c)\<rparr>)
          else (True, c))"

definition ToolCache_delete :: "string \<Rightarrow> 'v ToolCache \<Rightarrow> bool \<times> 'v ToolCache" where
  "ToolCache_delete key c = (Map_has (cache c) key, c\<lparr>cache := Map_delete key (cache c)\<rparr>)"

definition ToolCache_clear :: "'v ToolCache \<Rightarrow> 'v ToolCache" where
  "ToolCache_clear c = c\<lparr>cache := []\<rparr>"

definition ToolCache_size :: "'v ToolCache \<Rightarrow> int" where
  "ToolCache_size c = Map_size (cache c)"

text \<open>The periodic sweep: delete every expired entry.\<close>

definition cleanup :: "int \<Rightarrow> 'v ToolCache \<Rightarrow> 'v ToolCache" where
  "cleanup now c =
     c\<lparr>cache := filter (\<lambda>(key, entry). \<not> (ttlMs entry > 0 \<and> now - timestamp entry > ttlMs entry))
                   (cache c)\<rparr>"

section \<open>Access control (security/access-control, security/auth)\<close>

datatype UserRole = ADMIN | USER | GUEST

record AccessControlPolicy =
  toolName :: string
  allowedRoles :: "UserRole list"

record AccessControlService =
  policies :: "AccessControlPolicy jsmap"
  defaultPolicy :: AccessControlPolicy

definition new_AccessControlService :: AccessControlService where
  "new_AccessControlService =
     \<lparr>policies = [],
      defaultPolicy = \<lparr>AccessControlPolicy.toolName = ''*'',
                       AccessControlPolicy.allowedRoles = [ADMIN, USER]\<rparr>\<rparr>"

definition addPolicy :: "AccessControlPolicy \<Rightarrow> AccessControlService \<Rightarrow> AccessControlService" where
  "addPolicy policy s = s\<lparr>policies := Map_set (AccessControlPolicy.toolName policy) policy (policies s)\<rparr>"

definition removePolicy :: "string \<Rightarrow> AccessControlService \<Rightarrow> bool \<times> AccessControlService" where
  "removePolicy n s = (Map_has (policies s) n, s\<lparr>policies := Map_delete n (policies s)\<rparr>)"

definition getPolicy :: "AccessControlService \<Rightarrow> string \<Rightarrow> AccessControlPolicy" where
  "getPolicy s n = (case Map_get (policies s) n of Some policy \<Rightarrow> policy | None \<Rightarrow> defaultPolicy s)"

definition isAllowed :: "AccessControlService \<Rightarrow> string \<Rightarrow> UserRole \<Rightarrow> bool" where
  "isAllowed s n role =
     (if role = ADMIN then True
      else role \<in> set (AccessControlPolicy.allowedRoles (getPolicy s n)))"

definition setDefaultPolicy :: "AccessControlPolicy \<Rightarrow> AccessControlService \<Rightarrow> AccessControlService" where
  "setDefaultPolicy policy s = s\<lparr>defaultPolicy := policy\<rparr>"

definition clearPolicies :: "AccessControlService \<Rightarrow> AccessControlService" where
  "clearPolicies s = s\<lparr>policies := []\<rparr>"

section \<open>Metrics collector (utils/performance)\<close>

record ToolPerformanceMetrics =
  toolName :: string
  executionTimeMs :: int
  validationTimeMs :: int
  inputSizeBytes :: int
  outputSizeBytes :: int
  timestamp :: int

record PerformanceMonitor =
  toolMetrics :: "ToolPerformanceMetrics list"
  metricsLimit :: int

definition recordToolMetrics :: "ToolPerformanceMetrics \<Rightarrow> PerformanceMonitor \<Rightarrow> PerformanceMonitor" where
  "recordToolMetrics metrics pm =
     (let pushed = toolMetrics pm @ [metrics]
      in pm\<lparr>toolMetrics := (if int (length pushed) > metricsLimit pm then tl pushed else pushed)\<rparr>)"

definition getToolMetricsForTool :: "PerformanceMonitor \<Rightarrow> string \<Rightarrow> ToolPerformanceMetrics list" where
  "getToolMetricsForTool pm n = filter (\<lambda>metrics. ToolPerformanceMetrics.toolName metrics = n) (toolMetrics pm)"

definition clearMetrics :: "PerformanceMonitor \<Rightarrow> PerformanceMonitor" where
  "clearMetrics pm = pm\<lparr>toolMetrics := []\<rparr>"

section \<open>Tool executor (executor/LocalToolExecutor)\<close>

record ToolExecutionResult =
  toolName :: string
  result :: jsvalue
  executionTimeMs :: int

record ExecuteToolOptions =
  timeoutMs :: "int option"
  useCache :: "bool option"
  cacheTtlMs :: "int option"
  userRole :: "UserRole option"
  collectMetrics :: "bool option"

text \<open>The \<^verbatim>\<open>ToolExecutionError\<close>s that \<^verbatim>\<open>executeTool\<close> throws, one constructor for each
  message: not found, access denied, validation error, error executing (with its cause).\<close>

datatype ToolExecutionError =
    ToolNotFound string
  | AccessDenied string UserRole
  | ValidationError string string
  | ExecutionError string thrown

text \<open>How an awaited call ends: its promise resolves, rejects, or stays pending forever.\<close>

datatype 'a completion = Resolved 'a | Rejected ToolExecutionError | Pending

text \<open>A record of every invocation of a tool's validator and of its handler.\<close>

datatype invocation = SchemaParse string jsvalue | HandlerCall string jsvalue

datatype EventType =
    TOOL_REGISTERED
  | TOOL_EXECUTION_STARTED
  | TOOL_EXECUTION_COMPLETED
  | TOOL_EXECUTION_FAILED

datatype EventData =
    RegisteredData string
  | StartedData string jsvalue
  | CompletedData string jsvalue int
  | FailedData string ToolExecutionError

text \<open>
  The process-wide state an invocation changes: the clock read by \<^verbatim>\<open>Date.now()\<close>, the
  singletons \<^verbatim>\<open>toolCache\<close> and \<^verbatim>\<open>performanceMonitor\<close>, the invocations of validators and
  handlers so far, and the events passed to \<^verbatim>\<open>emitEvent\<close> so far. The singleton
  \<^verbatim>\<open>accessControlService\<close> is only read by an invocation and is a parameter of it.
\<close>

record World =
  now :: int
  toolCache :: "ToolExecutionResult ToolCache"
  performanceMonitor :: PerformanceMonitor
  invocations :: "invocation list"
  emitted :: "(EventType \<times> EventData) list"

definition generateCacheKey :: "string \<Rightarrow> jsvalue \<Rightarrow> string" where
  "generateCacheKey n input = n @ '':'' @ template_str (JSON_stringify input)"

text \<open>
  The timeout expression of \<^verbatim>\<open>executeTool\<close>,
  \<^verbatim>\<open>options?.timeoutMs || tool.config?.timeoutSeconds ? tool.config.timeoutSeconds * 1000 : undefined\<close>.
  The conditional operator binds weaker than \<^verbatim>\<open>||\<close>, so the disjunction is the
  condition; reading \<^verbatim>\<open>tool.config.timeoutSeconds\<close> throws a \<^verbatim>\<open>TypeError\<close> when the tool has
  no \<^verbatim>\<open>config\<close>, and \<^verbatim>\<open>undefined * 1000\<close> is \<^verbatim>\<open>NaN\<close>.
\<close>

definition resolve_timeoutMs :: "ExecuteToolOptions option \<Rightarrow> Tool \<Rightarrow> thrown + jsnumber option" where
  "resolve_timeoutMs opts tool =
     (if truthy_num (Option.bind opts timeoutMs) \<or> truthy_num (Option.bind (config tool) timeoutSeconds)
      then (case config tool of
              None \<Rightarrow> Inl (TypeError ''timeoutSeconds'')
            | Some cfg \<Rightarrow>
                (case timeoutSeconds cfg of
                   None \<Rightarrow> Inr (Some NaN)
                 | Some seconds \<Rightarrow> Inr (Some (Num (seconds * 1000)))))
      else Inr None)"

text \<open>\<^verbatim>\<open>options?.cacheTtlMs ?? (tool.config?.cacheTimeSeconds ? tool.config.cacheTimeSeconds * 1000 : 300000)\<close>\<close>

definition resolve_cacheTtlMs :: "ExecuteToolOptions option \<Rightarrow> Tool \<Rightarrow> int" where
  "resolve_cacheTtlMs opts tool =
     (case Option.bind opts cacheTtlMs of
        Some ttl \<Rightarrow> ttl
      | None \<Rightarrow>
          (case Option.bind (config tool) cacheTimeSeconds of
             Some seconds \<Rightarrow> if seconds \<noteq> 0 then seconds * 1000 else 300000
           | None \<Rightarrow> 300000))"

text \<open>The delay after which a timer set with \<^verbatim>\<open>setTimeout(f, ms)\<close> fires: a delay outside
  \<open>1 \<dots> 2\<^sup>3\<^sup>1 - 1\<close> is set to \<open>1\<close>.\<close>

definition timer_delay :: "int \<Rightarrow> int" where
  "timer_delay ms = (if 1 \<le> ms \<and> ms \<le> 2147483647 then ms else 1)"

text \<open>\<^verbatim>\<open>await Promise.resolve(tool.handler(validatedInput))\<close>: no deadline.\<close>

definition await_handler :: "Tool \<Rightarrow> jsvalue \<Rightarrow> World \<Rightarrow> (thrown + jsvalue) option \<times> World" where
  "await_handler tool input w =
     (let w1 = w\<lparr>invocations := invocations w @ [HandlerCall (name tool) input]\<rparr>
      in case handler tool input of
           Settles d r \<Rightarrow> (Some r, w1\<lparr>now := now w1 + d\<rparr>)
         | NeverSettles \<Rightarrow> (None, w1))"

text \<open>The handler and the deadline timer race; the handler wins when it settles before the
  timer fires, and whatever it does later is ignored.\<close>

definition executeWithTimeout :: "Tool \<Rightarrow> jsvalue \<Rightarrow> int \<Rightarrow> World \<Rightarrow> (thrown + jsvalue) option \<times> World" where
  "executeWithTimeout tool input ms w =
     (let w1 = w\<lparr>invocations := invocations w @ [HandlerCall (name tool) input]\<rparr>;
          timeout = (Some (Inl (TimedOut (name tool) ms)), w1\<lparr>now := now w1 + timer_delay ms\<rparr>)
      in case handler tool input of
           Settles d r \<Rightarrow>
             if d < timer_delay ms then (Some r, w1\<lparr>now := now w1 + d\<rparr>) else timeout
         | NeverSettles \<Rightarrow> timeout)"

text \<open>The metrics block: \<^verbatim>\<open>JSON.stringify(x).length\<close> throws when \<^verbatim>\<open>x\<close> is
  \<^verbatim>\<open>undefined\<close>, and the \<^verbatim>\<open>catch\<close> around the block only logs.\<close>

definition record_metrics_try ::
  "string \<Rightarrow> jsvalue \<Rightarrow> jsvalue \<Rightarrow> int \<Rightarrow> int \<Rightarrow> World \<Rightarrow> World" where
  "record_metrics_try n input res execMs validMs w =
     (case (JSON_stringify input, JSON_stringify res) of
        (Some i, Some r) \<Rightarrow>
          w\<lparr>performanceMonitor :=
               recordToolMetrics
                 \<lparr>ToolPerformanceMetrics.toolName = n,
                  ToolPerformanceMetrics.executionTimeMs = execMs,
                  validationTimeMs = validMs,
                  inputSizeBytes = int (length i),
                  outputSizeBytes = int (length r),
                  timestamp = now w\<rparr>
                 (performanceMonitor w)\<rparr>
      | _ \<Rightarrow> w)"

text \<open>\<^verbatim>\<open>if (timeoutMs) executeWithTimeout(...) else await handler(...)\<close>: with a truthy
  timeout the handler runs against the deadline, otherwise it is awaited without one.\<close>

definition run_handler ::
  "Tool \<Rightarrow> jsvalue \<Rightarrow> jsnumber option \<Rightarrow> World \<Rightarrow> (thrown + jsvalue) option \<times> World" where
  "run_handler tool validatedInput ms w =
     (case ms of
        Some (Num t) \<Rightarrow>
          if t \<noteq> 0 then executeWithTimeout tool validatedInput t w
          else await_handler tool validatedInput w
      | _ \<Rightarrow> await_handler tool validatedInput w)"

text \<open>After the handler has resolved: build the result, record metrics when
  \<^verbatim>\<open>options?.collectMetrics ?? true\<close>, populate the cache when \<^verbatim>\<open>useCache\<close>.\<close>

definition record_and_cache ::
  "Tool \<Rightarrow> string \<Rightarrow> jsvalue \<Rightarrow> ExecuteToolOptions option \<Rightarrow> bool \<Rightarrow> jsvalue \<Rightarrow> int \<Rightarrow> int
   \<Rightarrow> World \<Rightarrow> ToolExecutionResult \<times> World" where
  "record_and_cache tool n input opts use res execMs validMs w =
     (let toolResult = \<lparr>ToolExecutionResult.toolName = n, result = res,
                        ToolExecutionResult.executionTimeMs = execMs\<rparr>;
          w1 = (if (case Option.bind opts collectMetrics of Some b \<Rightarrow> b | None \<Rightarrow> True)
                then record_metrics_try n input res execMs validMs w
                else w);
          w2 = (if use
                then w1\<lparr>toolCache :=
                       ToolCache_set (generateCacheKey n input) toolResult
                         (resolve_cacheTtlMs opts tool) (now w1) (toolCache w1)\<rparr>
                else w1)
      in (toolResult, w2))"

text \<open>The \<^verbatim>\<open>try\<close> block of \<^verbatim>\<open>executeTool\<close>: validate, resolve the timeout, run the handler,
  record metrics, populate the cache. \<open>None\<close>: the handler's promise never settles.\<close>

definition executeTool_try ::
  "Tool \<Rightarrow> string \<Rightarrow> jsvalue \<Rightarrow> ExecuteToolOptions option \<Rightarrow> bool \<Rightarrow> World
   \<Rightarrow> (thrown + ToolExecutionResult) option \<times> World" where
  "executeTool_try tool n input opts use w =
     (let w1 = w\<lparr>invocations := invocations w @ [SchemaParse (name tool) input]\<rparr>;
          validationTime = fst (schema tool input);
          w2 = w1\<lparr>now := now w1 + validationTime\<rparr>
      in case snd (schema tool input) of
           Inl e \<Rightarrow> (Some (Inl e), w2)
         | Inr validatedInput \<Rightarrow>
             (case resolve_timeoutMs opts tool of
                Inl e \<Rightarrow> (Some (Inl e), w2)
              | Inr ms \<Rightarrow>
                  (case run_handler tool validatedInput ms w2 of
                     (None, w3) \<Rightarrow> (None, w3)
                   | (Some (Inl e), w3) \<Rightarrow> (Some (Inl e), w3)
                   | (Some (Inr res), w3) \<Rightarrow>
                       (case record_and_cache tool n input opts use res (now w3 - now w2)
                               validationTime w3 of
                          (toolResult, w4) \<Rightarrow> (Some (Inr toolResult), w4)))))"

text \<open>The \<^verbatim>\<open>catch\<close> block: a \<^verbatim>\<open>ZodError\<close> becomes the validation error, anything else the
  execution error with the thrown value as its cause.\<close>

definition executeTool_catch :: "string \<Rightarrow> thrown \<Rightarrow> ToolExecutionError" where
  "executeTool_catch n e = (case e of ZodError message \<Rightarrow> ValidationError n message | _ \<Rightarrow> ExecutionError n e)"

text \<open>
  Whether caching is enabled for a call as the specification resolves it: the per-call
  option \<open>useCache\<close> when supplied, else the tool's \<open>config.enableCache\<close> when present, else
  enabled. This follows the specification's words; the executor's own resolution,
  \<^verbatim>\<open>options?.useCache ?? true\<close>, is the one in \<open>executeTool\<close> below.
\<close>

definition spec_caching_enabled :: "ExecuteToolOptions option \<Rightarrow> Tool \<Rightarrow> bool" where
  "spec_caching_enabled opts tool =
     (case Option.bind opts useCache of
        Some b \<Rightarrow> b
      | None \<Rightarrow> (case Option.bind (config tool) enableCache of Some b \<Rightarrow> b | None \<Rightarrow> True))"

text \<open>The cache probe: \<^verbatim>\<open>toolCache.get(cacheKey)\<close> when \<^verbatim>\<open>useCache\<close>.\<close>

definition cache_probe ::
  "bool \<Rightarrow> string \<Rightarrow> jsvalue \<Rightarrow> World \<Rightarrow> ToolExecutionResult option \<times> World" where
  "cache_probe use n input w =
     (if use
      then (case ToolCache_get (generateCacheKey n input) (now w) (toolCache w) of
              (cachedResult, c) \<Rightarrow> (cachedResult, w\<lparr>toolCache := c\<rparr>))
      else (None, w))"

definition executeTool ::
  "LocalToolRegistry \<Rightarrow> AccessControlService \<Rightarrow> string \<Rightarrow> jsvalue \<Rightarrow> ExecuteToolOptions option
   \<Rightarrow> World \<Rightarrow> ToolExecutionResult completion \<times> World" where
  "executeTool reg accessControlService n input opts w =
     (case getTool reg n of
        None \<Rightarrow> (Rejected (ToolNotFound n), w)
      | Some tool \<Rightarrow>
          (case (case Option.bind opts userRole of
                   Some role \<Rightarrow> if \<not> isAllowed accessControlService n role then Some role else None
                 | None \<Rightarrow> None) of
             Some role \<Rightarrow> (Rejected (AccessDenied n role), w)
           | None \<Rightarrow>
               (let use = (case Option.bind opts useCache of Some b \<Rightarrow> b | None \<Rightarrow> True)
                in case cache_probe use n input w of
                     (Some cached, w1) \<Rightarrow> (Resolved cached, w1)
                   | (None, w1) \<Rightarrow>
                       (case executeTool_try tool n input opts use w1 of
                          (None, w2) \<Rightarrow> (Pending, w2)
                        | (Some (Inr toolResult), w2) \<Rightarrow> (Resolved toolResult, w2)
                        | (Some (Inl e), w2) \<Rightarrow> (Rejected (executeTool_catch n e), w2)))))"

section \<open>Pipeline facade (LocalAgentRPC)\<close>

record LocalAgentRPCOptions =
  defaultTimeoutSeconds :: "int option"

text \<open>\<^verbatim>\<open>emitEvent\<close> calls every listener in turn and swallows what a listener throws, so it
  always returns; the facade's listeners are represented by the sequence of events passed to
  \<^verbatim>\<open>emitEvent\<close>, which is what each of them observes.\<close>

record LocalAgentRPC =
  registry :: LocalToolRegistry
  options :: LocalAgentRPCOptions

definition emitEvent :: "EventType \<Rightarrow> EventData \<Rightarrow> World \<Rightarrow> World" where
  "emitEvent eventType data w = w\<lparr>emitted := emitted w @ [(eventType, data)]\<rparr>"

definition LocalAgentRPC_register ::
  "Tool \<Rightarrow> LocalAgentRPC \<Rightarrow> World \<Rightarrow> (RegistryError + unit) \<times> LocalAgentRPC \<times> World" where
  "LocalAgentRPC_register tool rpc w =
     (case register tool (registry rpc) of
        (Inl e, _) \<Rightarrow> (Inl e, rpc, w)
      | (Inr u, reg) \<Rightarrow>
          (Inr u, rpc\<lparr>registry := reg\<rparr>, emitEvent TOOL_REGISTERED (RegisteredData (name tool)) w))"

text \<open>The options the facade passes to the executor: only \<^verbatim>\<open>timeoutMs\<close>, which is
  \<^verbatim>\<open>defaultTimeoutSeconds ? defaultTimeoutSeconds * 1000 : undefined\<close>.\<close>

definition executorOptions :: "LocalAgentRPC \<Rightarrow> ExecuteToolOptions" where
  "executorOptions rpc =
     \<lparr>timeoutMs = (case defaultTimeoutSeconds (options rpc) of
                     Some seconds \<Rightarrow> if seconds \<noteq> 0 then Some (seconds * 1000) else None
                   | None \<Rightarrow> None),
      useCache = None, cacheTtlMs = None, userRole = None, collectMetrics = None\<rparr>"

definition LocalAgentRPC_executeTool ::
  "LocalAgentRPC \<Rightarrow> AccessControlService \<Rightarrow> string \<Rightarrow> jsvalue \<Rightarrow> World
   \<Rightarrow> ToolExecutionResult completion \<times> World" where
  "LocalAgentRPC_executeTool rpc accessControlService n input w =
     (let w1 = emitEvent TOOL_EXECUTION_STARTED (StartedData n input) w
      in case executeTool (registry rpc) accessControlService n input (Some (executorOptions rpc)) w1 of
           (Resolved res, w2) \<Rightarrow>
             (Resolved res,
              emitEvent TOOL_EXECUTION_COMPLETED
                (CompletedData n (result res) (ToolExecutionResult.executionTimeMs res)) w2)
         | (Rejected e, w2) \<Rightarrow> (Rejected e, emitEvent TOOL_EXECUTION_FAILED (FailedData n e) w2)
         | (Pending, w2) \<Rightarrow> (Pending, w2))"

section \<open>Example tools\<close>

text \<open>The \<^verbatim>\<open>add\<close> tool of the integration test: schema \<^verbatim>\<open>{a: number, b: number}\<close>,
  handler \<^verbatim>\<open>({a, b}) => ({sum: a + b})\<close>, no configuration. The validator stands for zod's
  on the inputs used below; the message of its \<^verbatim>\<open>ZodError\<close> is shortened to what was
  expected, and the sum is the integer sum, which is the handler's for integers of magnitude
  at most \<open>2\<^sup>5\<^sup>3 - 1\<close>.\<close>

definition add_schema :: "jsvalue \<Rightarrow> int \<times> (thrown + jsvalue)" where
  "add_schema v =
     (case v of
        JObj kvs \<Rightarrow>
          (case (map_of kvs ''a'', map_of kvs ''b'') of
             (Some (JNum a), Some (JNum b)) \<Rightarrow> (0, Inr (JObj [(''a'', JNum a), (''b'', JNum b)]))
           | _ \<Rightarrow> (0, Inl (ZodError ''Expected number'')))
      | _ \<Rightarrow> (0, Inl (ZodError ''Expected object'')))"

definition add_handler :: "jsvalue \<Rightarrow> handler_run" where
  "add_handler v =
     (case v of
        JObj [(_, JNum a), (_, JNum b)] \<Rightarrow> Settles 0 (Inr (JObj [(''sum'', JNum (a + b))]))
      | _ \<Rightarrow> Settles 0 (Inl (OtherError ''not a pair of numbers'')))"

definition add_tool :: Tool where
  "add_tool = \<lparr>name = ''add'', description = ''Add two numbers'',
     schema = add_schema, handler = add_handler, config = None\<rparr>"

definition add_tool_again :: Tool where
  "add_tool_again = add_tool\<lparr>description := ''Another tool called add''\<rparr>"

definition add_registry :: LocalToolRegistry where
  "add_registry = snd (register add_tool \<lparr>tools = []\<rparr>)"

text \<open>The state of a fresh process at time 1000: the default cache (capacity 1000) and the
  default metrics collector (limit 1000), both empty.\<close>

definition new_World :: World where
  "new_World =
     \<lparr>now = 1000,
      toolCache = \<lparr>cache = [], maxEntries = 1000\<rparr>,
      performanceMonitor = \<lparr>toolMetrics = [], metricsLimit = 1000\<rparr>,
      invocations = [],
      emitted = []\<rparr>"

definition two_three :: jsvalue where
  "two_three = JObj [(''a'', JNum 2), (''b'', JNum 3)]"

definition three_two :: jsvalue where
  "three_two = JObj [(''b'', JNum 3), (''a'', JNum 2)]"

text \<open>Caches of integers: an empty one, a full one of capacity two whose older entry is
  \<open>a\<close>, one of capacity zero, and a full one whose only entry has the empty string as key.\<close>

definition empty_cache :: "int ToolCache" where
  "empty_cache = \<lparr>cache = [], maxEntries = 1000\<rparr>"

definition full_cache :: "int ToolCache" where
  "full_cache =
     \<lparr>cache = [(''a'', \<lparr>entry_value = 10, CacheEntry.timestamp = 1, ttlMs = 0\<rparr>),
               (''b'', \<lparr>entry_value = 20, CacheEntry.timestamp = 2, ttlMs = 0\<rparr>)],
      maxEntries = 2\<rparr>"

definition zero_capacity_cache :: "int ToolCache" where
  "zero_capacity_cache = \<lparr>cache = [], maxEntries = 0\<rparr>"

definition empty_key_cache :: "int ToolCache" where
  "empty_key_cache =
     \<lparr>cache = [([], \<lparr>entry_value = 10, CacheEntry.timestamp = 1, ttlMs = 0\<rparr>)],
      maxEntries = 1\<rparr>"

definition no_options :: ExecuteToolOptions where
  "no_options = \<lparr>timeoutMs = None, useCache = None, cacheTtlMs = None, userRole = None,
     collectMetrics = None\<rparr>"

text \<open>A policy store in which neither the policy of \<^verbatim>\<open>add\<close> nor the default policy lists
  any role.\<close>

definition locked_policies :: AccessControlService where
  "locked_policies =
     addPolicy \<lparr>AccessControlPolicy.toolName = ''add'', AccessControlPolicy.allowedRoles = []\<rparr>
       (setDefaultPolicy
          \<lparr>AccessControlPolicy.toolName = ''*'', AccessControlPolicy.allowedRoles = []\<rparr>
          new_AccessControlService)"

text \<open>The state after one call of \<^verbatim>\<open>add\<close> with \<^verbatim>\<open>{a: 2, b: 3}\<close> and no options.\<close>

definition warm_World :: World where
  "warm_World = snd (executeTool add_registry new_AccessControlService ''add'' two_three None new_World)"

definition sum_five :: ToolExecutionResult where
  "sum_five = \<lparr>ToolExecutionResult.toolName = ''add'', result = JObj [(''sum'', JNum 5)],
     ToolExecutionResult.executionTimeMs = 0\<rparr>"

text \<open>Facades over the registry holding \<^verbatim>\<open>add\<close>: without a default timeout, and with
  \<^verbatim>\<open>defaultTimeoutSeconds: 5\<close> as in the integration test.\<close>

definition add_rpc :: LocalAgentRPC where
  "add_rpc = \<lparr>registry = add_registry, options = \<lparr>defaultTimeoutSeconds = None\<rparr>\<rparr>"

definition add_rpc_5s :: LocalAgentRPC where
  "add_rpc_5s = \<lparr>registry = add_registry, options = \<lparr>defaultTimeoutSeconds = Some 5\<rparr>\<rparr>"

text \<open>The same tool registered with \<^verbatim>\<open>config: {enableCache: false}\<close>.\<close>

definition uncached_tool :: Tool where
  "uncached_tool = add_tool\<lparr>config := Some \<lparr>retryCountOnStall = None, timeoutSeconds = None,
     enableCache = Some False, cacheTimeSeconds = None, ToolConfig.allowedRoles = None\<rparr>\<rparr>"

definition uncached_registry :: LocalToolRegistry where
  "uncached_registry = snd (register uncached_tool \<lparr>tools = []\<rparr>)"

text \<open>The \<^verbatim>\<open>slowOperation\<close> tool of the integration test, called with a delay of two
  seconds: \<^verbatim>\<open>config: {timeoutSeconds: 1}\<close>.\<close>

definition slow_tool :: Tool where
  "slow_tool = \<lparr>name = ''slowOperation'', description = ''A slow operation'',
     schema = (\<lambda>v. (0, Inr v)),
     handler = (\<lambda>v. Settles 2000 (Inr (JObj [(''completed'', JBool True)]))),
     config = Some \<lparr>retryCountOnStall = None, timeoutSeconds = Some 1,
       enableCache = None, cacheTimeSeconds = None, ToolConfig.allowedRoles = None\<rparr>\<rparr>"

definition slow_registry :: LocalToolRegistry where
  "slow_registry = snd (register slow_tool \<lparr>tools = []\<rparr>)"

section \<open>Registry: duplicate registration\<close>

lemma Map_has_get: "Map_has m k \<longleftrightarrow> Map_get m k \<noteq> None"
  by (simp add: Map_has_def Map_get_def)

text \<open>
  C5. Registering a tool whose name is already present raises the duplicate-registration
  error and leaves the registry as it was: \<open>getTool\<close> still returns the tool registered
  first, not the second one.
\<close>

theorem register_duplicate_rejected:
  assumes "getTool reg (name tool) = Some original"
  shows "register tool reg = (Inl (AlreadyRegistered (name tool)), reg)
         \<and> getTool (snd (register tool reg)) (name tool) = Some original"
proof -
  from assms have "Map_has (tools reg) (name tool)"
    by (simp add: getTool_def Map_has_get)
  then have "register tool reg = (Inl (AlreadyRegistered (name tool)), reg)"
    by (simp add: register_def)
  with assms show ?thesis
    by simp
qed

theorem register_duplicate_rejected_witness:
  "getTool add_registry (name add_tool_again) = Some add_tool
   \<and> description add_tool_again \<noteq> description add_tool
   \<and> register add_tool_again add_registry = (Inl (AlreadyRegistered ''add''), add_registry)
   \<and> getTool (snd (register add_tool_again add_registry)) ''add'' = Some add_tool"
proof -
  have h: "getTool add_registry (name add_tool_again) = Some add_tool"
    by (simp add: add_registry_def add_tool_again_def add_tool_def register_def getTool_def
        Map_has_def Map_get_def Map_set_def)
  have n: "name add_tool_again = ''add''"
    by (simp add: add_tool_again_def add_tool_def)
  have d: "description add_tool_again \<noteq> description add_tool"
    by (simp add: add_tool_again_def add_tool_def)
  from register_duplicate_rejected [OF h] h n d show ?thesis
    by simp
qed

section \<open>Result cache: expiry and eviction\<close>

lemma Map_get_set_same: "Map_get (Map_set k v m) k = Some v"
  by (simp add: Map_get_def Map_set_def update_conv')

lemma cache_after_set:
  "Map_get (cache (ToolCache_set key v ttl tnow c)) key
     = Some \<lparr>entry_value = v, CacheEntry.timestamp = tnow, ttlMs = ttl\<rparr>"
  by (simp add: ToolCache_set_def Let_def Map_get_set_same split: option.split)

lemma cleanup_keeps:
  assumes "Map_get (cache c) key = Some entry"
    and "\<not> (ttlMs entry > 0 \<and> tnow - CacheEntry.timestamp entry > ttlMs entry)"
  shows "Map_get (cache (cleanup tnow c)) key = Some entry"
proof -
  have "map_of (filter (\<lambda>(k, e). \<not> (ttlMs e > 0 \<and> tnow - CacheEntry.timestamp e > ttlMs e)) m) key = Some entry"
    if "map_of m key = Some entry" for m :: "'a CacheEntry jsmap"
    using that assms(2) by (induction m) (auto split: if_splits)
  with assms(1) show ?thesis
    by (simp add: cleanup_def Map_get_def)
qed

text \<open>
  C6. \<open>set\<close> with ttl \<open>T\<close> at time \<open>t0\<close> stores the entry \<open>(v, t0, T)\<close> under the key. While
  that entry is stored, with \<open>T > 0\<close> it is returned by \<open>get\<close> and reported by \<open>has\<close> at every
  read time \<open>tnow\<close> with \<open>tnow - t0 \<le> T\<close> (so at every time strictly within \<open>T\<close> of its
  creation), the cache staying as it is; at a read time with \<open>tnow - t0 > T\<close> both report it
  absent and delete it. With \<open>T = 0\<close> it is returned at every read time, and neither the
  reads nor the periodic sweep remove it.
\<close>

theorem cache_entry_ttl:
  assumes stored: "Map_get (cache c) key = Some \<lparr>entry_value = v, CacheEntry.timestamp = t0, ttlMs = T\<rparr>"
  shows "Map_get (cache (ToolCache_set key v T t0 c0)) key
           = Some \<lparr>entry_value = v, CacheEntry.timestamp = t0, ttlMs = T\<rparr>
       \<and> (0 < T \<and> tnow - t0 \<le> T \<longrightarrow>
            ToolCache_get key tnow c = (Some v, c) \<and> ToolCache_has key tnow c = (True, c))
       \<and> (0 < T \<and> tnow - t0 > T \<longrightarrow>
            ToolCache_get key tnow c = (None, c\<lparr>cache := Map_delete key (cache c)\<rparr>)
          \<and> ToolCache_has key tnow c = (False, c\<lparr>cache := Map_delete key (cache c)\<rparr>)
          \<and> \<not> Map_has (Map_delete key (cache c)) key)
       \<and> (T = 0 \<longrightarrow>
            ToolCache_get key tnow c = (Some v, c) \<and> ToolCache_has key tnow c = (True, c)
          \<and> Map_get (cache (cleanup tnow c)) key = Map_get (cache c) key)"
proof -
  have s: "Map_get (cache (ToolCache_set key v T t0 c0)) key
             = Some \<lparr>entry_value = v, CacheEntry.timestamp = t0, ttlMs = T\<rparr>"
    by (rule cache_after_set)
  have d: "\<not> Map_has (Map_delete key (cache c)) key"
    by (simp add: Map_has_def Map_delete_def delete_conv')
  have k: "T = 0 \<Longrightarrow> Map_get (cache (cleanup tnow c)) key = Map_get (cache c) key"
    using cleanup_keeps [OF stored, of tnow] stored by simp
  from stored s d k show ?thesis
    by (simp add: ToolCache_get_def ToolCache_has_def)
qed

theorem cache_entry_ttl_witness:
  "Map_get (cache (ToolCache_set ''k'' 7 5000 1000 empty_cache)) ''k''
     = Some \<lparr>entry_value = 7, CacheEntry.timestamp = 1000, ttlMs = 5000\<rparr>
   \<and> ToolCache_get ''k'' 5999 (ToolCache_set ''k'' 7 5000 1000 empty_cache)
     = (Some 7, ToolCache_set ''k'' 7 5000 1000 empty_cache)
   \<and> fst (ToolCache_has ''k'' 6001 (ToolCache_set ''k'' 7 5000 1000 empty_cache)) = False
   \<and> fst (ToolCache_get ''k'' 999999 (ToolCache_set ''k'' 7 0 1000 empty_cache)) = Some 7"
proof -
  have a: "Map_get (cache (ToolCache_set ''k'' 7 5000 1000 empty_cache)) ''k''
             = Some \<lparr>entry_value = 7, CacheEntry.timestamp = 1000, ttlMs = 5000\<rparr>"
    by (simp add: empty_cache_def ToolCache_set_def Map_size_def Map_set_def Map_get_def)
  have b: "Map_get (cache (ToolCache_set ''k'' 7 0 1000 empty_cache)) ''k''
             = Some \<lparr>entry_value = 7, CacheEntry.timestamp = 1000, ttlMs = 0\<rparr>"
    by (simp add: empty_cache_def ToolCache_set_def Map_size_def Map_set_def Map_get_def)
  from cache_entry_ttl [OF a, of empty_cache 5999] cache_entry_ttl [OF a, of empty_cache 6001]
    cache_entry_ttl [OF b, of empty_cache 999999]
  show ?thesis by simp
qed

lemma findOldestEntry_loop_acc:
  "\<exists>k t. findOldestEntry_loop es (Some k0) (Some t0) = Some k \<and> t \<le> t0
     \<and> (\<forall>p \<in> set es. t \<le> CacheEntry.timestamp (snd p))
     \<and> ((k = k0 \<and> t = t0) \<or> (\<exists>e. (k, e) \<in> set es \<and> CacheEntry.timestamp e = t))"
proof (induction es arbitrary: k0 t0)
  case Nil
  then show ?case by simp
next
  case (Cons a es)
  obtain key entry where a: "a = (key, entry)" by (cases a)
  show ?case
  proof (cases "CacheEntry.timestamp entry < t0")
    case True
    from Cons.IH [of key "CacheEntry.timestamp entry"] obtain k t where
      r: "findOldestEntry_loop es (Some key) (Some (CacheEntry.timestamp entry)) = Some k"
      and le: "t \<le> CacheEntry.timestamp entry"
      and low: "\<forall>p \<in> set es. t \<le> CacheEntry.timestamp (snd p)"
      and src: "(k = key \<and> t = CacheEntry.timestamp entry) \<or> (\<exists>e. (k, e) \<in> set es \<and> CacheEntry.timestamp e = t)"
      by blast
    from r True a have "findOldestEntry_loop (a # es) (Some k0) (Some t0) = Some k"
      by simp
    moreover from le True have "t \<le> t0" by simp
    moreover from low le a have "\<forall>p \<in> set (a # es). t \<le> CacheEntry.timestamp (snd p)" by simp
    moreover from src a have "\<exists>e. (k, e) \<in> set (a # es) \<and> CacheEntry.timestamp e = t" by auto
    ultimately show ?thesis by blast
  next
    case False
    from Cons.IH [of k0 t0] obtain k t where
      r: "findOldestEntry_loop es (Some k0) (Some t0) = Some k"
      and le: "t \<le> t0"
      and low: "\<forall>p \<in> set es. t \<le> CacheEntry.timestamp (snd p)"
      and src: "(k = k0 \<and> t = t0) \<or> (\<exists>e. (k, e) \<in> set es \<and> CacheEntry.timestamp e = t)"
      by blast
    from r False a have "findOldestEntry_loop (a # es) (Some k0) (Some t0) = Some k"
      by simp
    moreover from low le False a have "\<forall>p \<in> set (a # es). t \<le> CacheEntry.timestamp (snd p)" by simp
    moreover from src have "(k = k0 \<and> t = t0) \<or> (\<exists>e. (k, e) \<in> set (a # es) \<and> CacheEntry.timestamp e = t)"
      by auto
    ultimately show ?thesis using le by blast
  qed
qed

lemma findOldestEntry_oldest:
  assumes "cache c \<noteq> []"
  shows "\<exists>k e. findOldestEntry c = Some k \<and> (k, e) \<in> set (cache c)
           \<and> (\<forall>p \<in> set (cache c). CacheEntry.timestamp e \<le> CacheEntry.timestamp (snd p))"
proof -
  from assms obtain key entry rest where c: "cache c = (key, entry) # rest"
    by (cases "cache c") auto
  from findOldestEntry_loop_acc [of rest key "CacheEntry.timestamp entry"] obtain k t where
    r: "findOldestEntry_loop rest (Some key) (Some (CacheEntry.timestamp entry)) = Some k"
    and le: "t \<le> CacheEntry.timestamp entry"
    and low: "\<forall>p \<in> set rest. t \<le> CacheEntry.timestamp (snd p)"
    and src: "(k = key \<and> t = CacheEntry.timestamp entry) \<or> (\<exists>e. (k, e) \<in> set rest \<and> CacheEntry.timestamp e = t)"
    by blast
  from r c have "findOldestEntry c = Some k"
    by (simp add: findOldestEntry_def)
  moreover from src c obtain e where "(k, e) \<in> set (cache c)" and "CacheEntry.timestamp e = t"
    by auto
  moreover from low le c have "\<forall>p \<in> set (cache c). t \<le> CacheEntry.timestamp (snd p)"
    by simp
  ultimately show ?thesis by blast
qed


lemma length_delete_distinct:
  "distinct (map fst m) \<Longrightarrow> k \<in> fst ` set m \<Longrightarrow> Suc (length (AList.delete k m)) = length m"
  by (induction m) (auto simp: rev_image_eqI)

lemma length_update_le: "length (AList.update k v m) \<le> Suc (length m)"
  by (induction m) auto

lemma length_update_present: "k \<in> fst ` set m \<Longrightarrow> length (AList.update k v m) = length m"
  by (induction m) auto

lemma length_update_absent: "k \<notin> fst ` set m \<Longrightarrow> length (AList.update k v m) = Suc (length m)"
  by (induction m) auto

lemma Map_has_iff: "Map_has m k \<longleftrightarrow> k \<in> fst ` set m"
  by (simp add: Map_has_def map_of_eq_None_iff)

text \<open>
  C10, as the code has it. Throughout, let the cache hold at most \<open>maxEntries\<close> entries, each
  key once, with \<open>maxEntries \<ge> 1\<close>, and let the key of its oldest entry not be the empty
  string. Then after \<open>set\<close> the cache still holds at most \<open>maxEntries\<close> entries. When it held exactly \<open>maxEntries\<close>, \<open>set\<close> first deletes an entry
  whose creation timestamp is the least of all, also when the key being set is present, and
  then stores the new entry; no other entry changes. So overwriting a present key other than
  the oldest one removes the oldest entry, an unrelated one, and leaves \<open>maxEntries - 1\<close>
  entries; overwriting the oldest key itself replaces that entry only, and the cache keeps
  the same keys.
\<close>

theorem set_evicts_oldest:
  assumes inv: "distinct (map fst (cache c))"
    and cap: "1 \<le> maxEntries c"
    and size: "Map_size (cache c) \<le> maxEntries c"
    and key: "findOldestEntry c \<noteq> Some []"
    and c': "c' = ToolCache_set key v ttl tnow c"
  shows "Map_size (cache c') \<le> maxEntries c' \<and> distinct (map fst (cache c'))
     \<and> (Map_size (cache c) = maxEntries c \<longrightarrow>
          (\<exists>k e. findOldestEntry c = Some k \<and> Map_get (cache c) k = Some e
             \<and> (\<forall>k' e'. Map_get (cache c) k' = Some e' \<longrightarrow> CacheEntry.timestamp e \<le> CacheEntry.timestamp e')
             \<and> cache c' = Map_set key \<lparr>entry_value = v, CacheEntry.timestamp = tnow, ttlMs = ttl\<rparr>
                                (Map_delete k (cache c))
             \<and> (\<forall>k'. k' \<noteq> k \<and> k' \<noteq> key \<longrightarrow> Map_get (cache c') k' = Map_get (cache c) k')
             \<and> (k \<noteq> key \<longrightarrow> \<not> Map_has (cache c') k
                   \<and> (Map_has (cache c) key \<longrightarrow> Map_size (cache c') = maxEntries c - 1))
             \<and> (k = key \<longrightarrow> Map_size (cache c') = maxEntries c
                   \<and> (\<forall>k'. Map_has (cache c') k' = Map_has (cache c) k'))))"
proof (cases "Map_size (cache c) = maxEntries c")
  case False
  with size have lt: "Map_size (cache c) < maxEntries c" by simp
  then have eq: "cache c' = Map_set key \<lparr>entry_value = v, CacheEntry.timestamp = tnow, ttlMs = ttl\<rparr> (cache c)"
    and m: "maxEntries c' = maxEntries c"
    by (simp_all add: c' ToolCache_set_def)
  have "length (AList.update key \<lparr>entry_value = v, CacheEntry.timestamp = tnow, ttlMs = ttl\<rparr> (cache c))
          \<le> Suc (length (cache c))"
    by (rule length_update_le)
  with lt have "Map_size (cache c') \<le> maxEntries c"
    by (simp add: eq Map_size_def Map_set_def)
  moreover from inv have "distinct (map fst (cache c'))"
    by (simp add: eq Map_set_def distinct_update)
  ultimately show ?thesis using False m by simp
next
  case True
  with cap have "cache c \<noteq> []" by (auto simp: Map_size_def)
  from findOldestEntry_oldest [OF this] obtain k e where
    old: "findOldestEntry c = Some k" and mem: "(k, e) \<in> set (cache c)"
    and low: "\<forall>p \<in> set (cache c). CacheEntry.timestamp e \<le> CacheEntry.timestamp (snd p)"
    by blast
  let ?entry = "\<lparr>entry_value = v, CacheEntry.timestamp = tnow, ttlMs = ttl\<rparr>"
  from old key have ne: "k \<noteq> []" by auto
  from True old ne have eq: "cache c' = Map_set key ?entry (Map_delete k (cache c))"
    and m: "maxEntries c' = maxEntries c"
    by (simp_all add: c' ToolCache_set_def)
  from inv mem have get: "Map_get (cache c) k = Some e"
    by (simp add: Map_get_def)
  have least: "\<forall>k' e'. Map_get (cache c) k' = Some e' \<longrightarrow> CacheEntry.timestamp e \<le> CacheEntry.timestamp e'"
  proof (intro allI impI)
    fix k' e' assume "Map_get (cache c) k' = Some e'"
    then have "(k', e') \<in> set (cache c)" by (simp add: Map_get_def map_of_SomeD)
    with low show "CacheEntry.timestamp e \<le> CacheEntry.timestamp e'" by force
  qed
  from mem have kin: "k \<in> fst ` set (cache c)" by force
  from length_delete_distinct [OF inv kin]
  have len: "Suc (length (AList.delete k (cache c))) = length (cache c)" .
  have dist: "distinct (map fst (cache c'))"
    using inv by (simp add: eq Map_set_def Map_delete_def distinct_update distinct_delete)
  have bound: "Map_size (cache c') \<le> maxEntries c"
    using length_update_le [of key ?entry "AList.delete k (cache c)"] len True
    by (simp add: eq Map_size_def Map_set_def Map_delete_def)
  have frame: "\<forall>k'. k' \<noteq> k \<and> k' \<noteq> key \<longrightarrow> Map_get (cache c') k' = Map_get (cache c) k'"
    by (simp add: eq Map_get_def Map_set_def Map_delete_def update_conv' delete_conv')
  have gone: "k \<noteq> key \<Longrightarrow> \<not> Map_has (cache c') k"
    by (simp add: eq Map_has_def Map_set_def Map_delete_def update_conv' delete_conv')
  have shrink: "Map_size (cache c') = maxEntries c - 1" if "k \<noteq> key" "Map_has (cache c) key"
  proof -
    from that have "key \<in> fst ` set (AList.delete k (cache c))"
      by (metis Map_has_def delete_conv' fun_upd_other map_of_eq_None_iff)
    from length_update_present [OF this, of ?entry] len True show ?thesis
      by (simp add: eq Map_size_def Map_set_def Map_delete_def)
  qed
  have same_size: "Map_size (cache c') = maxEntries c" if "k = key"
  proof -
    have "key \<notin> fst ` set (AList.delete key (cache c))" by (rule delete_notin_dom)
    from length_update_absent [OF this, of ?entry] len True that show ?thesis
      by (simp add: eq Map_size_def Map_set_def Map_delete_def)
  qed
  have same_keys: "\<forall>k'. Map_has (cache c') k' = Map_has (cache c) k'" if "k = key"
    using that get
    by (auto simp: eq Map_has_def Map_get_def Map_set_def Map_delete_def update_conv' delete_conv')
  have "\<exists>k e. findOldestEntry c = Some k \<and> Map_get (cache c) k = Some e
             \<and> (\<forall>k' e'. Map_get (cache c) k' = Some e' \<longrightarrow> CacheEntry.timestamp e \<le> CacheEntry.timestamp e')
             \<and> cache c' = Map_set key ?entry (Map_delete k (cache c))
             \<and> (\<forall>k'. k' \<noteq> k \<and> k' \<noteq> key \<longrightarrow> Map_get (cache c') k' = Map_get (cache c) k')
             \<and> (k \<noteq> key \<longrightarrow> \<not> Map_has (cache c') k
                   \<and> (Map_has (cache c) key \<longrightarrow> Map_size (cache c') = maxEntries c - 1))
             \<and> (k = key \<longrightarrow> Map_size (cache c') = maxEntries c
                   \<and> (\<forall>k'. Map_has (cache c') k' = Map_has (cache c) k'))"
  proof (intro exI conjI impI)
    show "findOldestEntry c = Some k" by (rule old)
    show "Map_get (cache c) k = Some e" by (rule get)
    show "\<forall>k' e'. Map_get (cache c) k' = Some e' \<longrightarrow> CacheEntry.timestamp e \<le> CacheEntry.timestamp e'" by (rule least)
    show "cache c' = Map_set key ?entry (Map_delete k (cache c))" by (rule eq)
    show "\<forall>k'. k' \<noteq> k \<and> k' \<noteq> key \<longrightarrow> Map_get (cache c') k' = Map_get (cache c) k'" by (rule frame)
    show "\<not> Map_has (cache c') k" if "k \<noteq> key" using that by (rule gone)
    show "Map_size (cache c') = maxEntries c - 1" if "k \<noteq> key" "Map_has (cache c) key"
      using that by (rule shrink)
    show "Map_size (cache c') = maxEntries c" if "k = key" using that by (rule same_size)
    show "\<forall>k'. Map_has (cache c') k' = Map_has (cache c) k'" if "k = key" using that by (rule same_keys)
  qed
  with bound dist m show ?thesis by simp
qed

theorem set_evicts_oldest_witness:
  "distinct (map fst (cache full_cache)) \<and> 1 \<le> maxEntries full_cache
   \<and> Map_size (cache full_cache) = maxEntries full_cache
   \<and> findOldestEntry full_cache = Some ''a''
   \<and> Map_has (cache full_cache) ''b''
   \<and> Map_size (cache (ToolCache_set ''b'' 21 0 3 full_cache)) = 1
   \<and> \<not> Map_has (cache (ToolCache_set ''b'' 21 0 3 full_cache)) ''a''"
proof -
  have d: "distinct (map fst (cache full_cache))" by (simp add: full_cache_def)
  have m: "1 \<le> maxEntries full_cache" by (simp add: full_cache_def)
  have s: "Map_size (cache full_cache) = maxEntries full_cache" by (simp add: full_cache_def Map_size_def)
  have s': "Map_size (cache full_cache) \<le> maxEntries full_cache" using s by simp
  have o: "findOldestEntry full_cache = Some ''a''" by (simp add: full_cache_def findOldestEntry_def)
  have n: "findOldestEntry full_cache \<noteq> Some []" using o by simp
  have h: "Map_has (cache full_cache) ''b''" by (simp add: full_cache_def Map_has_def)
  have x: "maxEntries full_cache = 2" by (simp add: full_cache_def)
  from set_evicts_oldest [OF d m s' n refl, of "''b''" 21 0 3] s o h x
  have "Map_size (cache (ToolCache_set ''b'' 21 0 3 full_cache)) = 1
        \<and> \<not> Map_has (cache (ToolCache_set ''b'' 21 0 3 full_cache)) ''a''"
    by auto
  with d m s o h show ?thesis by simp
qed

text \<open>
  As stated, C10 fails where the key being overwritten is the oldest entry's own: the cache is
  full, the key is present, and after \<open>set\<close> both keys are still there, so no unrelated
  entry has been removed.
\<close>

theorem set_overwrites_oldest_counterexample:
  "Map_size (cache full_cache) = maxEntries full_cache
   \<and> Map_has (cache full_cache) ''a''
   \<and> map fst (cache full_cache) = [''a'', ''b'']
   \<and> map fst (cache (ToolCache_set ''a'' 11 0 3 full_cache)) = [''b'', ''a'']"
  by (simp add: full_cache_def ToolCache_set_def findOldestEntry_def Map_size_def Map_has_def
      Map_set_def Map_delete_def)

text \<open>
  The two conditions of the statement above are needed. With \<open>maxEntries = 0\<close> the empty
  cache is full, nothing can be evicted, and \<open>set\<close> leaves one entry. When the oldest entry's
  key is the empty string, \<^verbatim>\<open>if (oldestKey)\<close> is false, nothing is evicted, and the cache
  grows beyond \<open>maxEntries\<close>.
\<close>

lemma set_on_zero_capacity:
  "Map_size (cache zero_capacity_cache) = maxEntries zero_capacity_cache
   \<and> Map_size (cache (ToolCache_set ''k'' 1 0 5 zero_capacity_cache)) = 1
   \<and> maxEntries (ToolCache_set ''k'' 1 0 5 zero_capacity_cache) = 0"
  by (simp add: zero_capacity_cache_def ToolCache_set_def findOldestEntry_def Map_size_def Map_set_def)

lemma set_with_empty_oldest_key:
  "Map_size (cache empty_key_cache) = maxEntries empty_key_cache
   \<and> findOldestEntry empty_key_cache = Some []
   \<and> map fst (cache (ToolCache_set ''b'' 20 0 5 empty_key_cache)) = [[], ''b'']
   \<and> maxEntries (ToolCache_set ''b'' 20 0 5 empty_key_cache) = 1"
  by (simp add: empty_key_cache_def ToolCache_set_def findOldestEntry_def Map_size_def Map_set_def)

section \<open>Executor: authorization\<close>

lemma executeTool_catch_not_denied: "executeTool_catch n e \<noteq> AccessDenied n' role"
  by (cases e) (simp_all add: executeTool_catch_def)

lemma executeTool_denied_only_by_policy:
  assumes "fst (executeTool reg acs n input opts w) = Rejected (AccessDenied n' role)"
  shows "Option.bind opts userRole = Some role \<and> \<not> isAllowed acs n role"
  using assms
  by (auto simp: executeTool_def Let_def executeTool_catch_not_denied
      split: option.splits prod.splits sum.splits if_splits)

text \<open>
  C3. For every tool name and every state of the policy store, \<open>isAllowed\<close> is true for the
  administrator role; and a call of \<open>executeTool\<close> tagged with the administrator role is never
  rejected with the access-denied failure, whatever the registry, the policies, the input,
  the other options and the state.
\<close>

theorem admin_never_denied:
  "isAllowed acs n ADMIN
   \<and> (Option.bind opts userRole = Some ADMIN \<longrightarrow>
        fst (executeTool reg acs n input opts w) \<noteq> Rejected (AccessDenied n' role))"
proof -
  have a: "isAllowed acs n ADMIN"
    by (simp add: isAllowed_def)
  have "fst (executeTool reg acs n input opts w) \<noteq> Rejected (AccessDenied n' role)"
    if "Option.bind opts userRole = Some ADMIN"
  proof
    assume "fst (executeTool reg acs n input opts w) = Rejected (AccessDenied n' role)"
    from executeTool_denied_only_by_policy [OF this] that a show False by auto
  qed
  with a show ?thesis by simp
qed

theorem admin_never_denied_witness:
  "isAllowed locked_policies ''add'' ADMIN \<and> \<not> isAllowed locked_policies ''add'' USER
   \<and> Option.bind (Some (no_options\<lparr>userRole := Some ADMIN\<rparr>)) userRole = Some ADMIN
   \<and> fst (executeTool add_registry locked_policies ''add'' two_three
             (Some (no_options\<lparr>userRole := Some ADMIN\<rparr>)) new_World)
       \<noteq> Rejected (AccessDenied ''add'' ADMIN)"
proof -
  have u: "\<not> isAllowed locked_policies ''add'' USER"
    by code_simp
  have o: "Option.bind (Some (no_options\<lparr>userRole := Some ADMIN\<rparr>)) userRole = Some ADMIN"
    by simp
  from admin_never_denied [of locked_policies "''add''" "Some (no_options\<lparr>userRole := Some ADMIN\<rparr>)"
      add_registry two_three new_World "''add''" ADMIN] u o
  show ?thesis by simp
qed

section \<open>Facade: lifecycle events\<close>

lemma record_metrics_try_emitted: "emitted (record_metrics_try n input res e v w) = emitted w"
  by (simp add: record_metrics_try_def split: option.splits)

lemma await_handler_emitted: "emitted (snd (await_handler tool input w)) = emitted w"
  by (simp add: await_handler_def Let_def split: handler_run.splits)

lemma executeWithTimeout_emitted: "emitted (snd (executeWithTimeout tool input ms w)) = emitted w"
  by (simp add: executeWithTimeout_def Let_def split: handler_run.splits)

lemma run_handler_emitted: "emitted (snd (run_handler tool input ms w)) = emitted w"
  by (simp add: run_handler_def await_handler_emitted executeWithTimeout_emitted
      split: option.splits jsnumber.splits)

lemma record_and_cache_emitted:
  "emitted (snd (record_and_cache tool n input opts use res e v w)) = emitted w"
  by (simp add: record_and_cache_def Let_def record_metrics_try_emitted)

lemma executeTool_try_emitted:
  "emitted (snd (executeTool_try tool n input opts use w)) = emitted w"
  by (simp add: executeTool_try_def Let_def case_prod_beta run_handler_emitted
      record_and_cache_emitted split: option.splits sum.splits)

lemma cache_probe_emitted: "emitted (snd (cache_probe use n input w)) = emitted w"
  by (simp add: cache_probe_def case_prod_beta)

lemma executeTool_emitted:
  "emitted (snd (executeTool reg acs n input opts w)) = emitted w"
  by (simp add: executeTool_def Let_def case_prod_beta executeTool_try_emitted
      cache_probe_emitted split: option.splits sum.splits)

text \<open>
  C8. A facade call returns or re-raises exactly what the executor does, and the events it
  emits are, in this order: for a successful call \<open>tool_execution_started\<close> and then
  \<open>tool_execution_completed\<close> with the result and its execution time, and no
  \<open>tool_execution_failed\<close>; for a failing call \<open>tool_execution_started\<close> and then
  \<open>tool_execution_failed\<close> with the error that is re-raised, and no
  \<open>tool_execution_completed\<close>; for a call whose handler never settles
  \<open>tool_execution_started\<close> alone. So the started event comes strictly first and no call
  emits both a completion and a failure event.
\<close>

theorem facade_event_order:
  assumes "LocalAgentRPC_executeTool rpc acs n input w = (r, w')"
  shows "r = fst (executeTool (registry rpc) acs n input (Some (executorOptions rpc))
                   (emitEvent TOOL_EXECUTION_STARTED (StartedData n input) w))
       \<and> emitted w' = emitted w @
            (case r of
               Resolved res \<Rightarrow>
                 [(TOOL_EXECUTION_STARTED, StartedData n input),
                  (TOOL_EXECUTION_COMPLETED,
                   CompletedData n (result res) (ToolExecutionResult.executionTimeMs res))]
             | Rejected e \<Rightarrow>
                 [(TOOL_EXECUTION_STARTED, StartedData n input),
                  (TOOL_EXECUTION_FAILED, FailedData n e)]
             | Pending \<Rightarrow> [(TOOL_EXECUTION_STARTED, StartedData n input)])"
proof -
  let ?w1 = "emitEvent TOOL_EXECUTION_STARTED (StartedData n input) w"
  obtain x w2 where ex: "executeTool (registry rpc) acs n input (Some (executorOptions rpc)) ?w1 = (x, w2)"
    by (cases "executeTool (registry rpc) acs n input (Some (executorOptions rpc)) ?w1")
  from executeTool_emitted [of "registry rpc" acs n input "Some (executorOptions rpc)" ?w1] ex
  have e2: "emitted w2 = emitted w @ [(TOOL_EXECUTION_STARTED, StartedData n input)]"
    by (simp add: emitEvent_def)
  from assms ex e2 show ?thesis
    by (cases x) (auto simp: LocalAgentRPC_executeTool_def Let_def emitEvent_def)
qed

theorem facade_event_order_witness:
  "fst (LocalAgentRPC_executeTool add_rpc new_AccessControlService ''add'' two_three new_World)
     = Resolved sum_five
   \<and> emitted (snd (LocalAgentRPC_executeTool add_rpc new_AccessControlService ''add'' two_three new_World))
     = [(TOOL_EXECUTION_STARTED, StartedData ''add'' two_three),
        (TOOL_EXECUTION_COMPLETED, CompletedData ''add'' (JObj [(''sum'', JNum 5)]) 0)]
   \<and> fst (LocalAgentRPC_executeTool add_rpc new_AccessControlService ''add'' (JStr ''x'') new_World)
     = Rejected (ValidationError ''add'' ''Expected object'')
   \<and> emitted (snd (LocalAgentRPC_executeTool add_rpc new_AccessControlService ''add'' (JStr ''x'') new_World))
     = [(TOOL_EXECUTION_STARTED, StartedData ''add'' (JStr ''x'')),
        (TOOL_EXECUTION_FAILED, FailedData ''add'' (ValidationError ''add'' ''Expected object''))]"
proof -
  have ok: "fst (LocalAgentRPC_executeTool add_rpc new_AccessControlService ''add'' two_three new_World)
              = Resolved sum_five"
    by code_simp
  have bad: "fst (LocalAgentRPC_executeTool add_rpc new_AccessControlService ''add'' (JStr ''x'') new_World)
              = Rejected (ValidationError ''add'' ''Expected object'')"
    by code_simp
  have e: "emitted new_World = []"
    by (simp add: new_World_def)
  from facade_event_order [OF prod.collapse [symmetric],
      of add_rpc new_AccessControlService "''add''" two_three new_World]
    facade_event_order [OF prod.collapse [symmetric],
      of add_rpc new_AccessControlService "''add''" "JStr ''x''" new_World]
    ok bad e
  show ?thesis by (simp add: sum_five_def)
qed

section \<open>Facade: no role, no authorization\<close>

lemma executeTool_no_role:
  assumes "Option.bind opts userRole = None"
  shows "executeTool reg acs n input opts w = executeTool reg acs' n input opts w"
  using assms by (simp add: executeTool_def split: option.splits)

text \<open>
  C9. The options the facade passes to the executor carry no user role. So a call through
  the facade never fails with the access-denied failure, and its outcome and final state are
  the same under any two policy stores: the policy store is not consulted.
\<close>

theorem facade_skips_authorize:
  "userRole (executorOptions rpc) = None
   \<and> fst (LocalAgentRPC_executeTool rpc acs n input w) \<noteq> Rejected (AccessDenied n' role)
   \<and> LocalAgentRPC_executeTool rpc acs n input w = LocalAgentRPC_executeTool rpc acs' n input w"
proof -
  have u: "userRole (executorOptions rpc) = None"
    by (simp add: executorOptions_def)
  let ?w1 = "emitEvent TOOL_EXECUTION_STARTED (StartedData n input) w"
  let ?x = "executeTool (registry rpc) acs n input (Some (executorOptions rpc)) ?w1"
  have "fst ?x \<noteq> Rejected (AccessDenied n' role)"
    using executeTool_denied_only_by_policy [of "registry rpc" acs n input "Some (executorOptions rpc)" ?w1 n' role] u
    by auto
  moreover have "fst (LocalAgentRPC_executeTool rpc acs n input w) = fst ?x"
    by (cases ?x; cases "fst ?x") (auto simp: LocalAgentRPC_executeTool_def Let_def)
  ultimately have d: "fst (LocalAgentRPC_executeTool rpc acs n input w) \<noteq> Rejected (AccessDenied n' role)"
    by simp
  have "?x = executeTool (registry rpc) acs' n input (Some (executorOptions rpc)) ?w1"
    by (rule executeTool_no_role) (simp add: u)
  then have "LocalAgentRPC_executeTool rpc acs n input w = LocalAgentRPC_executeTool rpc acs' n input w"
    by (simp add: LocalAgentRPC_executeTool_def)
  with u d show ?thesis by simp
qed

section \<open>Executor: cache hit\<close>

lemma ToolCache_get_hit: "ToolCache_get key t c = (Some r, c') \<Longrightarrow> c' = c"
  by (auto simp: ToolCache_get_def split: option.splits if_splits)

text \<open>The two stages before the cache probe: a call on an unregistered tool, or with a role
  that is denied, fails there and leaves the state as it was.\<close>

lemma rejected_before_cache_probe:
  "(getTool reg n = None \<longrightarrow>
      executeTool reg acs n input opts w = (Rejected (ToolNotFound n), w))
   \<and> (getTool reg n = Some tool \<and> Option.bind opts userRole = Some role \<and> \<not> isAllowed acs n role \<longrightarrow>
      executeTool reg acs n input opts w = (Rejected (AccessDenied n role), w))"
  by (simp add: executeTool_def)

lemma spec_caching_enabled_use:
  "spec_caching_enabled opts tool \<Longrightarrow> (case Option.bind opts useCache of Some b \<Rightarrow> b | None \<Rightarrow> True)"
  by (simp add: spec_caching_enabled_def split: option.splits)

text \<open>
  C4. Take a call that reaches the cache probe, the tool being registered and the authorize
  stage passed (no role supplied, or a role that is allowed), with caching enabled for the
  call (from the per-call \<open>useCache\<close>, else the tool's \<open>enableCache\<close>, else enabled). If the
  cache holds an unexpired entry under the fingerprint of the tool name and the raw input,
  the call returns the cached result and the state is exactly as before: the validator and
  the handler are not invoked, no metrics sample is recorded, and the cache is not written.
\<close>

theorem cache_hit_returns_cached:
  assumes "getTool reg n = Some tool"
    and "Option.bind opts userRole = None
         \<or> (\<exists>role. Option.bind opts userRole = Some role \<and> isAllowed acs n role)"
    and "spec_caching_enabled opts tool"
    and "fst (ToolCache_get (generateCacheKey n input) (now w) (toolCache w)) = Some cached"
  shows "executeTool reg acs n input opts w = (Resolved cached, w)
       \<and> invocations (snd (executeTool reg acs n input opts w)) = invocations w
       \<and> performanceMonitor (snd (executeTool reg acs n input opts w)) = performanceMonitor w
       \<and> toolCache (snd (executeTool reg acs n input opts w)) = toolCache w"
proof -
  obtain c where g: "ToolCache_get (generateCacheKey n input) (now w) (toolCache w) = (Some cached, c)"
    using assms(4) by (cases "ToolCache_get (generateCacheKey n input) (now w) (toolCache w)") simp
  from ToolCache_get_hit [OF g] have c: "c = toolCache w" .
  have use: "(case Option.bind opts useCache of Some b \<Rightarrow> b | None \<Rightarrow> True) = True"
    using spec_caching_enabled_use [OF assms(3)] by simp
  have probe: "cache_probe True n input w = (Some cached, w)"
    using g c by (simp add: cache_probe_def)
  from assms(2) have auth: "(case Option.bind opts userRole of
                   Some role \<Rightarrow> if \<not> isAllowed acs n role then Some role else None
                 | None \<Rightarrow> None) = None"
    by auto
  have "executeTool reg acs n input opts w = (Resolved cached, w)"
    by (simp add: executeTool_def assms(1) auth use probe)
  then show ?thesis by simp
qed

lemma getTool_add_registry: "getTool add_registry ''add'' = Some add_tool"
  by (simp add: add_registry_def add_tool_def register_def getTool_def
      Map_has_def Map_get_def Map_set_def)

lemma warm_World_hit:
  "fst (ToolCache_get (generateCacheKey ''add'' two_three) (now warm_World) (toolCache warm_World))
     = Some sum_five"
  by code_simp

theorem cache_hit_returns_cached_witness:
  "getTool add_registry ''add'' = Some add_tool
   \<and> isAllowed new_AccessControlService ''add'' USER
   \<and> spec_caching_enabled (Some (no_options\<lparr>userRole := Some USER\<rparr>)) add_tool
   \<and> fst (ToolCache_get (generateCacheKey ''add'' two_three) (now warm_World) (toolCache warm_World))
       = Some sum_five
   \<and> executeTool add_registry new_AccessControlService ''add'' two_three
        (Some (no_options\<lparr>userRole := Some USER\<rparr>)) warm_World = (Resolved sum_five, warm_World)"
proof -
  have a: "isAllowed new_AccessControlService ''add'' USER"
    by code_simp
  then have r: "Option.bind (Some (no_options\<lparr>userRole := Some USER\<rparr>)) userRole = None
         \<or> (\<exists>role. Option.bind (Some (no_options\<lparr>userRole := Some USER\<rparr>)) userRole = Some role
               \<and> isAllowed new_AccessControlService ''add'' role)"
    by simp
  have u: "spec_caching_enabled (Some (no_options\<lparr>userRole := Some USER\<rparr>)) add_tool"
    by (simp add: spec_caching_enabled_def no_options_def add_tool_def)
  from cache_hit_returns_cached [OF getTool_add_registry r u warm_World_hit] a u
    getTool_add_registry warm_World_hit
  show ?thesis by simp
qed

section \<open>Executor: timeout and cache resolution\<close>

text \<open>What the timeout expression yields: a number only from the tool's configured
  \<open>timeoutSeconds\<close>, never from the per-call \<open>timeoutMs\<close>; and a \<open>TypeError\<close> when a non-zero
  per-call \<open>timeoutMs\<close> meets a tool without configuration.\<close>

lemma resolve_timeoutMs_is_configured:
  assumes "resolve_timeoutMs opts tool = Inr (Some (Num t))"
  shows "\<exists>cfg seconds. config tool = Some cfg \<and> timeoutSeconds cfg = Some seconds \<and> t = seconds * 1000"
  using assms by (auto simp: resolve_timeoutMs_def split: if_splits option.splits)

lemma resolve_timeoutMs_no_config:
  assumes "config tool = None" and "Option.bind opts timeoutMs = Some t" and "t \<noteq> 0"
  shows "resolve_timeoutMs opts tool = Inl (TypeError ''timeoutSeconds'')"
  using assms by (simp add: resolve_timeoutMs_def)

text \<open>
  C1 at calls that supply the per-call \<open>timeoutMs = 5000\<close>. On a tool with no
  configuration the call fails with the execution error that wraps a \<open>TypeError\<close>, after
  validation and before the handler is invoked; so does the same call through a facade
  configured with a default timeout of five seconds. On a tool configured with
  \<open>timeoutSeconds = 1\<close> whose handler takes two seconds, the deadline is the configured 1000 ms,
  not the 5000 ms of the call.
\<close>

theorem per_call_timeout_not_used:
  "config add_tool = None
   \<and> executeTool add_registry new_AccessControlService ''add'' two_three
        (Some (no_options\<lparr>timeoutMs := Some 5000\<rparr>)) new_World
      = (Rejected (ExecutionError ''add'' (TypeError ''timeoutSeconds'')),
         new_World\<lparr>invocations := [SchemaParse ''add'' two_three]\<rparr>)
   \<and> timeoutMs (executorOptions add_rpc_5s) = Some 5000
   \<and> fst (LocalAgentRPC_executeTool add_rpc_5s new_AccessControlService ''add'' two_three new_World)
      = Rejected (ExecutionError ''add'' (TypeError ''timeoutSeconds''))
   \<and> Option.bind (config slow_tool) timeoutSeconds = Some 1
   \<and> fst (executeTool slow_registry new_AccessControlService ''slowOperation''
            (JObj [(''delay'', JNum 2000)]) (Some (no_options\<lparr>timeoutMs := Some 5000\<rparr>)) new_World)
      = Rejected (ExecutionError ''slowOperation'' (TimedOut ''slowOperation'' 1000))"
  by code_simp

text \<open>The \<^verbatim>\<open>try\<close> block does not depend on the \<open>enableCache\<close> flag of the tool's
  configuration, and \<open>executeTool\<close> takes \<open>useCache\<close> from the options alone.\<close>

lemma resolve_timeoutMs_ignores_enableCache:
  "resolve_timeoutMs opts (tool\<lparr>config := Some (cfg\<lparr>enableCache := b\<rparr>)\<rparr>)
     = resolve_timeoutMs opts (tool\<lparr>config := Some cfg\<rparr>)"
  by (simp add: resolve_timeoutMs_def)

lemma run_handler_ignores_config:
  "run_handler (tool\<lparr>config := c\<rparr>) v ms w = run_handler tool v ms w"
  by (simp add: run_handler_def await_handler_def executeWithTimeout_def
      split: option.split jsnumber.split)

lemma resolve_cacheTtlMs_ignores_enableCache:
  "resolve_cacheTtlMs opts (tool\<lparr>config := Some (cfg\<lparr>enableCache := b\<rparr>)\<rparr>)
     = resolve_cacheTtlMs opts (tool\<lparr>config := Some cfg\<rparr>)"
  by (simp add: resolve_cacheTtlMs_def split: option.split)

lemma record_and_cache_ignores_enableCache:
  "record_and_cache (tool\<lparr>config := Some (cfg\<lparr>enableCache := b\<rparr>)\<rparr>) n input opts use res e v w
     = record_and_cache (tool\<lparr>config := Some cfg\<rparr>) n input opts use res e v w"
  by (simp add: record_and_cache_def Let_def resolve_cacheTtlMs_ignores_enableCache)

lemma executeTool_try_ignores_enableCache:
  "executeTool_try (tool\<lparr>config := Some (cfg\<lparr>enableCache := b\<rparr>)\<rparr>) n input opts use w
     = executeTool_try (tool\<lparr>config := Some cfg\<rparr>) n input opts use w"
  unfolding executeTool_try_def resolve_timeoutMs_ignores_enableCache
    run_handler_ignores_config record_and_cache_ignores_enableCache
  by simp

text \<open>
  C2 at a tool registered with \<open>enableCache = false\<close> and called with no options: the call
  populates the cache all the same, leaving the state that the tool without configuration
  leaves, and the next call is answered from the cache.
\<close>

theorem enableCache_false_ignored:
  "Option.bind (config uncached_tool) enableCache = Some False
   \<and> Map_has (cache (toolCache (snd (executeTool uncached_registry new_AccessControlService ''add''
                  two_three None new_World))))
        (generateCacheKey ''add'' two_three)
   \<and> snd (executeTool uncached_registry new_AccessControlService ''add'' two_three None new_World)
      = warm_World
   \<and> executeTool uncached_registry new_AccessControlService ''add'' two_three None warm_World
      = (Resolved sum_five, warm_World)"
  by code_simp

section \<open>Executor: cache key\<close>

text \<open>Quoted strings form a prefix code: a quoted key at the front of a text determines the
  key and the rest of the text.\<close>

lemma hex_char_inj: "a < 16 \<Longrightarrow> b < 16 \<Longrightarrow> hex_char a = hex_char b \<Longrightarrow> a = b"
  unfolding hex_char_def
  by (subst (asm) nth_eq_iff_index_eq) simp_all

lemma quote_char_not_empty: "quote_char c \<noteq> []"
  by (simp add: quote_char_def)

lemma quote_char_hd: "hd (quote_char c) \<noteq> CHR 0x22"
  by (simp add: quote_char_def)

lemma of_char_div_mod_eq:
  assumes "(of_char c :: nat) div 16 = of_char d div 16" "(of_char c :: nat) mod 16 = of_char d mod 16"
  shows "c = d"
proof -
  have "(of_char c :: nat) = of_char d"
    using assms by (metis div_mult_mod_eq)
  then show ?thesis by simp
qed

lemma quote_char_prefix_code:
  assumes "quote_char c @ x = quote_char d @ y"
  shows "c = d \<and> x = y"
proof -
  have lt: "(of_char e :: nat) < 32 \<Longrightarrow> of_char e div 16 < (16::nat) \<and> of_char e mod 16 < (16::nat)" for e
    by auto
  from assms show ?thesis
    by (auto simp: quote_char_def split: if_splits dest!: hex_char_inj [rotated 2] 
        intro: of_char_div_mod_eq)
qed


lemma escaped_prefix_code:
  assumes "concat (map quote_char k1) @ CHR 0x22 # r1 = concat (map quote_char k2) @ CHR 0x22 # r2"
  shows "k1 = k2 \<and> r1 = r2"
  using assms
proof (induction k1 arbitrary: k2)
  case Nil
  show ?case
  proof (cases k2)
    case Nil
    with Nil.prems show ?thesis by simp
  next
    case (Cons d k2')
    with Nil.prems have "hd (quote_char d @ concat (map quote_char k2') @ CHR 0x22 # r2) = CHR 0x22"
      by (metis append.assoc append_Nil concat.simps(1,2) list.map(1,2) list.sel(1))
    then show ?thesis
      using quote_char_hd [of d] quote_char_not_empty [of d] by simp
  qed
next
  case (Cons c k1')
  show ?case
  proof (cases k2)
    case Nil
    with Cons.prems have "hd (quote_char c @ concat (map quote_char k1') @ CHR 0x22 # r1) = CHR 0x22"
      by (metis append.assoc append_Nil concat.simps(1,2) list.map(1,2) list.sel(1))
    then show ?thesis
      using quote_char_hd [of c] quote_char_not_empty [of c] by simp
  next
    case (Cons d k2')
    with Cons.prems have "quote_char c @ (concat (map quote_char k1') @ CHR 0x22 # r1)
        = quote_char d @ (concat (map quote_char k2') @ CHR 0x22 # r2)"
      by simp
    from quote_char_prefix_code [OF this] Cons.IH [of k2'] Cons show ?thesis
      by simp
  qed
qed

lemma QuoteJSONString_prefix_code:
  "QuoteJSONString k1 @ r1 = QuoteJSONString k2 @ r2 \<Longrightarrow> k1 = k2 \<and> r1 = r2"
  using escaped_prefix_code [of k1 r1 k2 r2] by (simp add: QuoteJSONString_def)

text \<open>How two properties are ordered: as created when neither key is an array index, and
  in one and the same order however they were created when a key is an array index.\<close>

lemma array_index_inj: "array_index k1 = Some a \<Longrightarrow> array_index k2 = Some a \<Longrightarrow> k1 = k2"
  by (auto simp: array_index_def split: if_splits option.splits)

lemma own_property_order_plain:
  "array_index k1 = None \<Longrightarrow> array_index k2 = None \<Longrightarrow>
   own_property_order [(k1, x1), (k2, x2)] = [(k1, x1), (k2, x2)]"
  by (simp add: own_property_order_def List.map_filter_def)

lemma own_property_order_swap:
  assumes "k1 \<noteq> k2" and "array_index k1 \<noteq> None \<or> array_index k2 \<noteq> None"
  shows "own_property_order [(k1, x1), (k2, x2)] = own_property_order [(k2, x2), (k1, x1)]"
proof (cases "array_index k1")
  case None
  with assms show ?thesis
    by (auto simp: own_property_order_def List.map_filter_def)
next
  case (Some a)
  show ?thesis
  proof (cases "array_index k2")
    case None
    with Some show ?thesis
      by (simp add: own_property_order_def List.map_filter_def)
  next
    case (Some b)
    with \<open>array_index k1 = Some a\<close> assms(1) have "a \<noteq> b"
      using array_index_inj by blast
    with Some \<open>array_index k1 = Some a\<close> show ?thesis
      by (cases "a < b") (simp_all add: own_property_order_def List.map_filter_def)
  qed
qed

lemma JSON_stringify_swap:
  assumes "k1 \<noteq> k2" and "array_index k1 \<noteq> None \<or> array_index k2 \<noteq> None"
  shows "JSON_stringify (JObj [(k1, v1), (k2, v2)]) = JSON_stringify (JObj [(k2, v2), (k1, v1)])"
proof (cases "JSON_stringify v1")
  case None
  then show ?thesis by (simp split: option.split)
next
  case s1: (Some s1)
  show ?thesis
  proof (cases "JSON_stringify v2")
    case None
    with s1 show ?thesis by simp
  next
    case (Some s2)
    with s1 own_property_order_swap [OF assms, of s1 s2] show ?thesis by simp
  qed
qed

text \<open>
  C7, as the code has it. The cache key is the tool name, a colon and the \<open>JSON.stringify\<close> text
  of the input: for the same tool name two inputs have the same cache key exactly when their
  \<open>JSON.stringify\<close> texts are equal. The text depends on the order in which an object's
  properties were created: two objects that hold the same two properties in opposite orders,
  with different keys of which neither is an array index and with values that
  \<open>JSON.stringify\<close> writes, always get different cache keys. When one of the two keys is an
  array index, the two objects get the same cache key.
\<close>

theorem generateCacheKey_eq_iff:
  "(generateCacheKey n i = generateCacheKey n j
      \<longleftrightarrow> template_str (JSON_stringify i) = template_str (JSON_stringify j))
   \<and> (k1 \<noteq> k2 \<and> array_index k1 = None \<and> array_index k2 = None
        \<and> JSON_stringify v1 \<noteq> None \<and> JSON_stringify v2 \<noteq> None \<longrightarrow>
        generateCacheKey n (JObj [(k1, v1), (k2, v2)]) \<noteq> generateCacheKey n (JObj [(k2, v2), (k1, v1)]))
   \<and> (k1 \<noteq> k2 \<and> (array_index k1 \<noteq> None \<or> array_index k2 \<noteq> None) \<longrightarrow>
        generateCacheKey n (JObj [(k1, v1), (k2, v2)]) = generateCacheKey n (JObj [(k2, v2), (k1, v1)]))"
proof -
  have a: "generateCacheKey n i = generateCacheKey n j
      \<longleftrightarrow> template_str (JSON_stringify i) = template_str (JSON_stringify j)"
    by (simp add: generateCacheKey_def)
  have b: "generateCacheKey n (JObj [(k1, v1), (k2, v2)]) \<noteq> generateCacheKey n (JObj [(k2, v2), (k1, v1)])"
    if "k1 \<noteq> k2" "array_index k1 = None" "array_index k2 = None"
      "JSON_stringify v1 \<noteq> None" "JSON_stringify v2 \<noteq> None"
  proof
    assume eq: "generateCacheKey n (JObj [(k1, v1), (k2, v2)]) = generateCacheKey n (JObj [(k2, v2), (k1, v1)])"
    from that obtain s1 s2 where s: "JSON_stringify v1 = Some s1" "JSON_stringify v2 = Some s2"
      by auto
    from eq s that(2,3)
    have "QuoteJSONString k1 @ ('':'' @ s1 @ '','' @ QuoteJSONString k2 @ '':'' @ s2 @ ''}'')
        = QuoteJSONString k2 @ ('':'' @ s2 @ '','' @ QuoteJSONString k1 @ '':'' @ s1 @ ''}'')"
      by (simp add: generateCacheKey_def own_property_order_plain)
    from QuoteJSONString_prefix_code [OF this] that show False by simp
  qed
  have c: "generateCacheKey n (JObj [(k1, v1), (k2, v2)]) = generateCacheKey n (JObj [(k2, v2), (k1, v1)])"
    if "k1 \<noteq> k2" "array_index k1 \<noteq> None \<or> array_index k2 \<noteq> None"
    using JSON_stringify_swap [OF that] by (simp add: generateCacheKey_def)
  from a b c show ?thesis by blast
qed

theorem generateCacheKey_eq_iff_witness:
  "''a'' \<noteq> ''b'' \<and> array_index ''a'' = None \<and> array_index ''b'' = None
   \<and> JSON_stringify (JNum 2) \<noteq> None \<and> JSON_stringify (JNum 3) \<noteq> None
   \<and> generateCacheKey ''add'' (JObj [(''a'', JNum 2), (''b'', JNum 3)])
       \<noteq> generateCacheKey ''add'' (JObj [(''b'', JNum 3), (''a'', JNum 2)])
   \<and> generateCacheKey ''add'' two_three = generateCacheKey ''add'' (JObj [(''a'', JNum 2), (''b'', JNum 3)])
   \<and> ''1'' \<noteq> ''2'' \<and> array_index ''1'' \<noteq> None
   \<and> generateCacheKey ''add'' (JObj [(''1'', JNum 0), (''2'', JNum 0)])
       = generateCacheKey ''add'' (JObj [(''2'', JNum 0), (''1'', JNum 0)])"
proof -
  have h: "''a'' \<noteq> ''b'' \<and> array_index ''a'' = None \<and> array_index ''b'' = None
      \<and> JSON_stringify (JNum 2) \<noteq> None \<and> JSON_stringify (JNum 3) \<noteq> None"
    by code_simp
  have g: "''1'' \<noteq> ''2'' \<and> array_index ''1'' \<noteq> None"
    by code_simp
  have t: "template_str (JSON_stringify two_three)
             = template_str (JSON_stringify (JObj [(''a'', JNum 2), (''b'', JNum 3)]))"
    by (simp only: two_three_def)
  from generateCacheKey_eq_iff [of "''add''" two_three "JObj [(''a'', JNum 2), (''b'', JNum 3)]"
      "''a''" "''b''" "JNum 2" "JNum 3"]
    generateCacheKey_eq_iff [of "''add''" two_three two_three "''1''" "''2''" "JNum 0" "JNum 0"]
    h g t
  show ?thesis by blast
qed

text \<open>
  As stated, C7 fails: the inputs \<open>{a: 2, b: 3}\<close> and \<open>{b: 3, a: 2}\<close> hold the same key-value
  pairs, created in different orders, and get different cache keys.
\<close>

theorem key_order_changes_cache_key_counterexample:
  \<open>two_three = JObj [(''a'', JNum 2), (''b'', JNum 3)]
   \<and> three_two = JObj [(''b'', JNum 3), (''a'', JNum 2)]
   \<and> set [(''a'', JNum 2), (''b'', JNum 3)] = set [(''b'', JNum 3), (''a'', JNum 2)]
   \<and> generateCacheKey ''add'' two_three = ''add:{"a":2,"b":3}''
   \<and> generateCacheKey ''add'' three_two = ''add:{"b":3,"a":2}''
   \<and> generateCacheKey ''add'' two_three \<noteq> generateCacheKey ''add'' three_two\<close>
  by code_simp

end
